theory Spec2Isabelle
  imports Main "HOL-Library.Sublist"
begin

section \<open>Python values and exceptions\<close>

text \<open>
  The library is dynamically typed Python, and several of its properties are about what
  happens when a caller passes something that is not a string. The values a caller can
  pass are modelled by \<open>pyval\<close>; a Python \<open>str\<close> is a \<open>string\<close>, so the model covers
  the code points \<open>0 .. 255\<close> (every character the patterns below mention is ASCII).

  An exception is a value of type \<open>exn\<close>: the class it was raised with and the text
  \<open>str(e)\<close> gives. \<open>KeyboardInterrupt\<close> and \<open>SystemExit\<close> derive from
  \<open>BaseException\<close> only; every other class derives from \<open>Exception\<close>, and
  \<open>OtherError name\<close> stands for a library's own class of that name. A function that
  may raise returns \<open>exn + 'a\<close>, with \<open>Inl\<close> for the raise.
\<close>

datatype pyval =
    PyNone
  | PyBool bool
  | PyInt int
  | PyStr string
  | PyBytes string
  | PyList "pyval list"

datatype exn_kind =
    Exception
  | ValueError
  | TypeError
  | AttributeError
  | ValidationError
  | OtherError string
  | KeyboardInterrupt
  | SystemExit

datatype exn = Exn (exn_class: exn_kind) (exn_str: string)

text \<open>
  \<open>issubclass k base\<close>: \<open>KeyboardInterrupt\<close> and \<open>SystemExit\<close> derive from nothing
  modelled but themselves; every other class derives from \<open>Exception\<close>; pydantic's
  \<open>ValidationError\<close> derives from \<open>ValueError\<close>.
\<close>

fun issubclass :: "exn_kind \<Rightarrow> exn_kind \<Rightarrow> bool" where
  "issubclass KeyboardInterrupt base = (base = KeyboardInterrupt)"
| "issubclass SystemExit base = (base = SystemExit)"
| "issubclass k Exception = True"
| "issubclass ValidationError ValueError = True"
| "issubclass k base = (k = base)"

text \<open>\<open>except (c1, c2, ...)\<close> catches an exception whose class derives from one of them.\<close>

definition caught_by :: "exn_kind list \<Rightarrow> exn \<Rightarrow> bool" where
  "caught_by bases e = list_ex (issubclass (exn_class e)) bases"

section \<open>The regular expressions of validation.py\<close>

text \<open>
  The two patterns use anchors, literals, character sets and bounded or unbounded
  repetition of a literal or a set. \<open>node\<close> is that fragment of the parsed pattern.
\<close>

datatype citem = Lit char | Rng char char

datatype atom = LITERAL char | IN "citem list"

datatype node =
    AT_BEGINNING
  | AT_END
  | One atom
  | MAX_REPEAT nat "nat option" atom

fun expand :: "citem list \<Rightarrow> char list" where
  "expand [] = []"
| "expand (Lit c # is) = c # expand is"
| "expand (Rng a b # is) = map char_of [of_char a ..< Suc (of_char b) :: nat] @ expand is"

text \<open>Python's \<open>str.lower\<close> on one code point below 256.\<close>

definition py_lower :: "char \<Rightarrow> char" where
  "py_lower c =
     (let n = (of_char c :: nat)
      in if (65 \<le> n \<and> n \<le> 90) \<or> (192 \<le> n \<and> n \<le> 222 \<and> n \<noteq> 215)
         then char_of (n + 32) else c)"

text \<open>
  With \<open>re.IGNORECASE\<close> the compiled set holds the lower-cased members and the subject
  character is lower-cased before the lookup.
\<close>

fun atom_match :: "bool \<Rightarrow> atom \<Rightarrow> char \<Rightarrow> bool" where
  "atom_match ic (LITERAL l) c = (if ic then py_lower c = py_lower l else c = l)"
| "atom_match ic (IN items) c =
     (if ic then py_lower c \<in> set (map py_lower (expand items)) else c \<in> set (expand items))"

text \<open>
  \<open>sre_match ic p at_start s\<close>: does the pattern \<open>p\<close> match some prefix of the remaining
  subject \<open>s\<close>? \<open>at_start\<close> says whether no character has been consumed yet.
  \<open>^\<close> matches only at the start of the subject. \<open>$\<close> (without \<open>re.MULTILINE\<close>)
  matches at the end of the subject and also just before a newline that is the last
  character of the subject. A repetition is greedy: it first tries to take one more
  character and falls back to the rest of the pattern.
\<close>

fun sre_match :: "bool \<Rightarrow> node list \<Rightarrow> bool \<Rightarrow> string \<Rightarrow> bool" where
  "sre_match ic [] at_start s = True"
| "sre_match ic (AT_BEGINNING # p) at_start s =
     (if at_start then sre_match ic p at_start s else False)"
| "sre_match ic (AT_END # p) at_start s =
     (if s = [] \<or> s = [CHR 0x0A] then sre_match ic p at_start s else False)"
| "sre_match ic (One a # p) at_start [] = False"
| "sre_match ic (One a # p) at_start (c # cs) =
     (if atom_match ic a c then sre_match ic p False cs else False)"
| "sre_match ic (MAX_REPEAT lo hi a # p) at_start [] =
     (if lo = 0 then sre_match ic p at_start [] else False)"
| "sre_match ic (MAX_REPEAT lo hi a # p) at_start (c # cs) =
     (if hi \<noteq> Some 0 \<and> atom_match ic a c
         \<and> sre_match ic (MAX_REPEAT (lo - 1) (map_option (\<lambda>h. h - 1) hi) a # p) False cs
      then True
      else if lo = 0 then sre_match ic p at_start (c # cs) else False)"

text \<open>
  \<open>re.match(pattern, value)\<close> and \<open>Pattern.match(value)\<close>: a subject that is not a
  \<open>str\<close> raises \<open>TypeError\<close> (for \<open>bytes\<close> too, since the patterns are \<open>str\<close> patterns).
  The result \<open>True\<close> stands for a match object, \<open>False\<close> for \<open>None\<close>; that is also
  what \<open>bool(...)\<close> makes of them.
\<close>

fun re_match :: "bool \<Rightarrow> node list \<Rightarrow> pyval \<Rightarrow> exn + bool" where
  "re_match ic p (PyStr s) = Inr (sre_match ic p True s)"
| "re_match ic p (PyBytes b) =
     Inl (Exn TypeError ''cannot use a string pattern on a bytes-like object'')"
| "re_match ic p v = Inl (Exn TypeError ''expected string or bytes-like object'')"

section \<open>validation.py\<close>

definition hex_set :: "citem list" where
  "hex_set = [Rng CHR ''0'' CHR ''9'', Rng CHR ''a'' CHR ''f'']"

text \<open>
  \<^verbatim>\<open>^[0-9a-f]{8}-[0-9a-f]{4}-[1-5][0-9a-f]{3}-[89ab][0-9a-f]{3}-[0-9a-f]{12}$\<close>,
  compiled with \<open>re.IGNORECASE\<close>.
\<close>

definition version_set :: "citem list" where
  "version_set = [Rng CHR ''1'' CHR ''5'']"

definition variant_set :: "citem list" where
  "variant_set = [Lit CHR ''8'', Lit CHR ''9'', Lit CHR ''a'', Lit CHR ''b'']"

definition UUID_PATTERN :: "node list" where
  "UUID_PATTERN =
     [AT_BEGINNING,
      MAX_REPEAT 8 (Some 8) (IN hex_set), One (LITERAL CHR ''-''),
      MAX_REPEAT 4 (Some 4) (IN hex_set), One (LITERAL CHR ''-''),
      One (IN version_set), MAX_REPEAT 3 (Some 3) (IN hex_set), One (LITERAL CHR ''-''),
      One (IN variant_set), MAX_REPEAT 3 (Some 3) (IN hex_set), One (LITERAL CHR ''-''),
      MAX_REPEAT 12 (Some 12) (IN hex_set),
      AT_END]"

definition is_valid_uuid :: "pyval \<Rightarrow> exn + bool" where
  "is_valid_uuid v = re_match True UUID_PATTERN v"

text \<open>\<^verbatim>\<open>^[a-zA-Z0-9._%+-]+@[a-zA-Z0-9.-]+\.[a-zA-Z]{2,}$\<close>, without flags.\<close>

definition local_set :: "citem list" where
  "local_set =
     [Rng CHR ''a'' CHR ''z'', Rng CHR ''A'' CHR ''Z'', Rng CHR ''0'' CHR ''9'',
      Lit CHR ''.'', Lit CHR ''_'', Lit CHR ''%'', Lit CHR ''+'', Lit CHR ''-'']"

definition domain_set :: "citem list" where
  "domain_set =
     [Rng CHR ''a'' CHR ''z'', Rng CHR ''A'' CHR ''Z'', Rng CHR ''0'' CHR ''9'',
      Lit CHR ''.'', Lit CHR ''-'']"

definition alpha_set :: "citem list" where
  "alpha_set = [Rng CHR ''a'' CHR ''z'', Rng CHR ''A'' CHR ''Z'']"

definition EMAIL_PATTERN :: "node list" where
  "EMAIL_PATTERN =
     [AT_BEGINNING,
      MAX_REPEAT 1 None (IN local_set), One (LITERAL CHR ''@''),
      MAX_REPEAT 1 None (IN domain_set), One (LITERAL CHR ''.''),
      MAX_REPEAT 2 None (IN alpha_set),
      AT_END]"

definition is_valid_email :: "pyval \<Rightarrow> exn + bool" where
  "is_valid_email email = re_match False EMAIL_PATTERN email"

text \<open>
  \<open>str.replace(old, new)\<close>: every non-overlapping occurrence of \<open>old\<close>, scanning from
  the left, is replaced; an empty \<open>old\<close> matches before every character and at the end.
\<close>

function str_replace :: "string \<Rightarrow> string \<Rightarrow> string \<Rightarrow> string" where
  "str_replace old new [] = (if old = [] then new else [])"
| "str_replace old new (c # cs) =
     (if old = [] then new @ c # str_replace old new cs
      else if prefix old (c # cs) then new @ str_replace old new (drop (length old) (c # cs))
      else c # str_replace old new cs)"
  by pat_completeness auto
termination
  by (relation "measure (\<lambda>(old, new, s). length s)") auto

text \<open>
  The method call \<open>value.replace(old, new)\<close> with two \<open>str\<close> arguments. \<open>None\<close>,
  \<open>bool\<close>, \<open>int\<close> and \<open>list\<close> have no attribute \<open>replace\<close>; \<open>bytes.replace\<close> exists
  and rejects \<open>str\<close> arguments.
\<close>

fun py_replace :: "pyval \<Rightarrow> string \<Rightarrow> string \<Rightarrow> exn + string" where
  "py_replace (PyStr s) old new = Inr (str_replace old new s)"
| "py_replace (PyBytes b) old new =
     Inl (Exn TypeError ''a bytes-like object is required, not str'')"
| "py_replace v old new = Inl (Exn AttributeError ''object has no attribute replace'')"

text \<open>
  \<open>datetime.fromisoformat\<close> belongs to the Python standard library, not to this
  repository; it is a parameter of the model: a function from the text to a parsed
  value or an exception.
\<close>

definition is_valid_date_string :: "(string \<Rightarrow> exn + 'dt) \<Rightarrow> pyval \<Rightarrow> exn + bool" where
  "is_valid_date_string fromisoformat date_string =
     (case (case py_replace date_string ''Z'' ''+00:00'' of
              Inl e \<Rightarrow> Inl e
            | Inr s \<Rightarrow> fromisoformat s) of
        Inr d \<Rightarrow> Inr True
      | Inl e \<Rightarrow> if caught_by [ValueError, TypeError] e then Inr False else Inl e)"

subsection \<open>The logger\<close>

text \<open>
  The structlog logger is the shared sink of the library. A call hands one record
  (level, event text, keyword fields) to the configured processors and renderer, which
  belong to structlog and depend on the environment (\<open>LOG_FORMAT\<close>) and on the data
  logged: rendering can fail. The \<open>sink\<close> is a parameter of the model: given the log so
  far and the record, it accepts the record (\<open>None\<close>) or raises. An accepted record is
  appended to the log; a call that raises leaves the log as it was.
\<close>

datatype level = DEBUG | INFO | WARNING | ERROR

type_synonym pydict = "(string \<times> pyval) list"

datatype field = FStr string | FDict pydict | FParams "pydict option"

record log_record =
  level :: level
  event :: string
  kwargs :: "(string \<times> field) list"

type_synonym sink = "log_record list \<Rightarrow> log_record \<Rightarrow> exn option"

definition emit :: "sink \<Rightarrow> log_record \<Rightarrow> log_record list \<Rightarrow> (exn + unit) \<times> log_record list" where
  "emit lg r log = (case lg log r of None \<Rightarrow> (Inr (), log @ [r]) | Some e \<Rightarrow> (Inl e, log))"


definition logger_error ::
  "sink \<Rightarrow> string \<Rightarrow> (string \<times> field) list \<Rightarrow> log_record list
     \<Rightarrow> (exn + unit) \<times> log_record list" where
  "logger_error lg ev kw log = emit lg \<lparr>level = ERROR, event = ev, kwargs = kw\<rparr> log"

subsection \<open>validate_model\<close>


section \<open>db.py\<close>

subsection \<open>The database driver and the process environment\<close>

text \<open>
  SQLAlchemy and the database behind it are outside the repository. The model takes
  them as a \<open>driver\<close>: for each operation the client invokes, a function from the
  history of calls made so far and the arguments to the outcome, an exception or a
  value. The history makes the driver as general as a deterministic environment can be:
  the same call may succeed now and fail later. Handles are numbers; \<open>'r\<close> is the type
  of a statement's result.

  The \<open>world\<close> is what the client's methods change outside the client object: the
  history of driver calls and the log.
\<close>

type_synonym engine_handle = nat
type_synonym connection = nat

datatype call =
    CreateEngine string
  | Connect engine_handle
  | Execute connection string "pydict option"
  | Commit connection
  | Close connection

record 'r driver =
  create_engine :: "call list \<Rightarrow> string \<Rightarrow> exn + engine_handle"
  connect :: "call list \<Rightarrow> engine_handle \<Rightarrow> exn + connection"
  execute :: "call list \<Rightarrow> connection \<Rightarrow> string \<Rightarrow> pydict option \<Rightarrow> exn + 'r"
  commit :: "call list \<Rightarrow> connection \<Rightarrow> exn + unit"
  close :: "call list \<Rightarrow> connection \<Rightarrow> exn + unit"

record world =
  trace :: "call list"
  logs :: "log_record list"

definition do_create_engine :: "'r driver \<Rightarrow> string \<Rightarrow> world \<Rightarrow> (exn + engine_handle) \<times> world" where
  "do_create_engine drv url w =
     (create_engine drv (trace w) url, w\<lparr>trace := trace w @ [CreateEngine url]\<rparr>)"

definition do_connect :: "'r driver \<Rightarrow> engine_handle \<Rightarrow> world \<Rightarrow> (exn + connection) \<times> world" where
  "do_connect drv eng w = (connect drv (trace w) eng, w\<lparr>trace := trace w @ [Connect eng]\<rparr>)"

definition do_execute ::
  "'r driver \<Rightarrow> connection \<Rightarrow> string \<Rightarrow> pydict option \<Rightarrow> world \<Rightarrow> (exn + 'r) \<times> world" where
  "do_execute drv conn stmt params w =
     (execute drv (trace w) conn stmt params, w\<lparr>trace := trace w @ [Execute conn stmt params]\<rparr>)"

definition do_commit :: "'r driver \<Rightarrow> connection \<Rightarrow> world \<Rightarrow> (exn + unit) \<times> world" where
  "do_commit drv conn w = (commit drv (trace w) conn, w\<lparr>trace := trace w @ [Commit conn]\<rparr>)"

definition do_close :: "'r driver \<Rightarrow> connection \<Rightarrow> world \<Rightarrow> (exn + unit) \<times> world" where
  "do_close drv conn w = (close drv (trace w) conn, w\<lparr>trace := trace w @ [Close conn]\<rparr>)"

text \<open>\<open>os.getenv(key)\<close> on the process environment, a map from names to values.\<close>

definition getenv :: "(string \<rightharpoonup> string) \<Rightarrow> string \<Rightarrow> string option" where
  "getenv environ key = environ key"

subsection \<open>DatabaseClient\<close>

text \<open>The attribute \<open>_engine\<close> is the field \<open>engine_slot\<close>.\<close>

record DatabaseClient =
  connection_string :: string
  engine_slot :: "engine_handle option"

text \<open>Truth value of an \<open>Optional[str]\<close>: \<open>None\<close> and the empty string are false.\<close>

fun truthy :: "string option \<Rightarrow> bool" where
  "truthy None = False"
| "truthy (Some s) = (s \<noteq> [])"

text \<open>
  \<open>__init__\<close>: \<open>connection_string or os.getenv('DATABASE_URL')\<close>, then the check
  \<open>if not self.connection_string: raise ValueError(...)\<close>.
\<close>

definition init :: "(string \<rightharpoonup> string) \<Rightarrow> string option \<Rightarrow> exn + DatabaseClient" where
  "init environ connection_string_arg =
     (let cs = (if truthy connection_string_arg then connection_string_arg
                else getenv environ ''DATABASE_URL'')
      in case cs of
           None \<Rightarrow> Inl (Exn ValueError ''DATABASE_URL environment variable not set'')
         | Some s \<Rightarrow>
             if \<not> truthy (Some s)
             then Inl (Exn ValueError ''DATABASE_URL environment variable not set'')
             else Inr \<lparr>connection_string = s, engine_slot = None\<rparr>)"

text \<open>The property \<open>engine\<close>: create the engine if the slot is empty, return the slot.\<close>

definition engine ::
  "'r driver \<Rightarrow> DatabaseClient \<Rightarrow> world \<Rightarrow> (exn + engine_handle) \<times> DatabaseClient \<times> world" where
  "engine drv self w =
     (case engine_slot self of
        None \<Rightarrow>
          (case do_create_engine drv (connection_string self) w of
             (Inl e, w') \<Rightarrow> (Inl e, self, w')
           | (Inr h, w') \<Rightarrow> (Inr h, self\<lparr>engine_slot := Some h\<rparr>, w'))
      | Some h \<Rightarrow> (Inr h, self, w))"

text \<open>
  \<open>with self.engine.connect() as conn: body\<close>. The connection is closed on every way
  out of the body; an exception of the close replaces the body's outcome.
\<close>

definition with_connect ::
  "'r driver \<Rightarrow> DatabaseClient \<Rightarrow> world \<Rightarrow> (connection \<Rightarrow> world \<Rightarrow> (exn + 'a) \<times> world)
     \<Rightarrow> (exn + 'a) \<times> DatabaseClient \<times> world" where
  "with_connect drv self w body =
     (case engine drv self w of
        (Inl e, self', w1) \<Rightarrow> (Inl e, self', w1)
      | (Inr eng, self', w1) \<Rightarrow>
          (case do_connect drv eng w1 of
             (Inl e, w2) \<Rightarrow> (Inl e, self', w2)
           | (Inr conn, w2) \<Rightarrow>
               (case body conn w2 of
                  (outcome, w3) \<Rightarrow>
                    (case do_close drv conn w3 of
                       (Inl e, w4) \<Rightarrow> (Inl e, self', w4)
                     | (Inr u, w4) \<Rightarrow> (outcome, self', w4)))))"

text \<open>\<open>params or {}\<close>: \<open>None\<close> and the empty dict both give an empty dict.\<close>

fun params_or_empty :: "pydict option \<Rightarrow> pydict" where
  "params_or_empty None = []"
| "params_or_empty (Some d) = (if d = [] then [] else d)"

text \<open>The body of the \<open>with\<close> block of \<open>execute_query\<close>: execute, commit, return the result.\<close>

definition execute_query_body ::
  "'r driver \<Rightarrow> string \<Rightarrow> pydict option \<Rightarrow> connection \<Rightarrow> world \<Rightarrow> (exn + 'r) \<times> world" where
  "execute_query_body drv query params conn w =
     (case do_execute drv conn query (Some (params_or_empty params)) w of
        (Inl e, w') \<Rightarrow> (Inl e, w')
      | (Inr result, w') \<Rightarrow>
          (case do_commit drv conn w' of
             (Inl e, w'') \<Rightarrow> (Inl e, w'')
           | (Inr u, w'') \<Rightarrow> (Inr result, w'')))"

text \<open>
  The two coroutines contain no \<open>await\<close>: once awaited, each body runs to its end
  without suspension, so each is a function from the state before to the state after.
  Both handlers are \<open>except Exception\<close>: an exception that does not derive from
  \<open>Exception\<close> passes through them untouched. The handler of \<open>execute_query\<close> logs and
  re-raises; if the logging call raises, that exception leaves the handler instead.
\<close>

definition execute_query ::
  "'r driver \<Rightarrow> sink \<Rightarrow> DatabaseClient \<Rightarrow> string \<Rightarrow> pydict option \<Rightarrow> world
     \<Rightarrow> (exn + 'r) \<times> DatabaseClient \<times> world" where
  "execute_query drv lg self query params w =
     (case with_connect drv self w (execute_query_body drv query params) of
        (Inr result, self', w') \<Rightarrow> (Inr result, self', w')
      | (Inl e, self', w') \<Rightarrow>
          if caught_by [Exception] e
          then (case logger_error lg (''Database query failed: '' @ exn_str e)
                       [(''query'', FStr query), (''params'', FParams params)] (logs w') of
                  (Inl raised, log') \<Rightarrow> (Inl raised, self', w'\<lparr>logs := log'\<rparr>)
                | (Inr u, log') \<Rightarrow> (Inl e, self', w'\<lparr>logs := log'\<rparr>))
          else (Inl e, self', w'))"

definition health_check ::
  "'r driver \<Rightarrow> sink \<Rightarrow> DatabaseClient \<Rightarrow> world \<Rightarrow> (exn + bool) \<times> DatabaseClient \<times> world" where
  "health_check drv lg self w =
     (case with_connect drv self w (\<lambda>conn. do_execute drv conn ''SELECT 1'' None) of
        (Inr result, self', w') \<Rightarrow> (Inr True, self', w')
      | (Inl e, self', w') \<Rightarrow>
          if caught_by [Exception] e
          then (case logger_error lg (''Database health check failed: '' @ exn_str e) []
                       (logs w') of
                  (Inl raised, log') \<Rightarrow> (Inl raised, self', w'\<lparr>logs := log'\<rparr>)
                | (Inr u, log') \<Rightarrow> (Inr False, self', w'\<lparr>logs := log'\<rparr>))
          else (Inl e, self', w'))"

text \<open>
  A client is used through its three entry points. \<open>run\<close> performs a sequence of
  uses one after the other, each running to its end before the next begins, whatever
  their outcomes, and returns the client and the world after the last.
\<close>

datatype use = Use_engine | Use_execute_query string "pydict option" | Use_health_check

fun use_client ::
  "'r driver \<Rightarrow> sink \<Rightarrow> use \<Rightarrow> DatabaseClient \<times> world \<Rightarrow> DatabaseClient \<times> world" where
  "use_client drv lg Use_engine (self, w) = snd (engine drv self w)"
| "use_client drv lg (Use_execute_query query params) (self, w) =
     snd (execute_query drv lg self query params w)"
| "use_client drv lg Use_health_check (self, w) = snd (health_check drv lg self w)"

fun run ::
  "'r driver \<Rightarrow> sink \<Rightarrow> use list \<Rightarrow> DatabaseClient \<times> world \<Rightarrow> DatabaseClient \<times> world" where
  "run drv lg [] st = st"
| "run drv lg (u # us) st = run drv lg us (use_client drv lg u st)"

text \<open>
  The property \<open>engine\<close> in steps, for executions in which two accesses overlap (two
  threads reading \<open>client.engine\<close>). An access is at the test \<open>self._engine is None\<close>,
  at the call of \<open>create_engine\<close>, at the assignment to \<open>self._engine\<close>, at the
  \<open>return\<close>, or finished.
\<close>

datatype access =
    At_test
  | At_create
  | At_store engine_handle
  | At_return
  | Returned "engine_handle option"
  | Raised exn

fun engine_step ::
  "'r driver \<Rightarrow> access \<times> DatabaseClient \<times> world \<Rightarrow> access \<times> DatabaseClient \<times> world" where
  "engine_step drv (At_test, self, w) =
     (if engine_slot self = None then At_create else At_return, self, w)"
| "engine_step drv (At_create, self, w) =
     (case do_create_engine drv (connection_string self) w of
        (Inl e, w') \<Rightarrow> (Raised e, self, w')
      | (Inr h, w') \<Rightarrow> (At_store h, self, w'))"
| "engine_step drv (At_store h, self, w) = (At_return, self\<lparr>engine_slot := Some h\<rparr>, w)"
| "engine_step drv (At_return, self, w) = (Returned (engine_slot self), self, w)"
| "engine_step drv (a, self, w) = (a, self, w)"

text \<open>
  Two accesses to the same client, scheduled step by step: \<open>True\<close> lets the first
  access take its next step, \<open>False\<close> the second.
\<close>

fun interleave ::
  "'r driver \<Rightarrow> bool list \<Rightarrow> access \<times> access \<times> DatabaseClient \<times> world
     \<Rightarrow> access \<times> access \<times> DatabaseClient \<times> world" where
  "interleave drv [] st = st"
| "interleave drv (first # schedule) (a1, a2, self, w) =
     (if first
      then (case engine_step drv (a1, self, w) of
              (a1', self', w') \<Rightarrow> interleave drv schedule (a1', a2, self', w'))
      else (case engine_step drv (a2, self, w) of
              (a2', self', w') \<Rightarrow> interleave drv schedule (a1, a2', self', w')))"

text \<open>
  \<open>engines_created drv pre calls\<close> counts the calls of \<open>create_engine\<close> among \<open>calls\<close>
  that returned a handle, \<open>pre\<close> being the history before them.
\<close>

fun engines_created :: "'r driver \<Rightarrow> call list \<Rightarrow> call list \<Rightarrow> nat" where
  "engines_created drv pre [] = 0"
| "engines_created drv pre (CreateEngine url # cs) =
     (case create_engine drv pre url of Inl e \<Rightarrow> 0 | Inr h \<Rightarrow> 1)
       + engines_created drv (pre @ [CreateEngine url]) cs"
| "engines_created drv pre (c # cs) = engines_created drv (pre @ [c]) cs"

section \<open>Notions used to state the properties\<close>

text \<open>
  The canonical UUID text, following the words of the specification: five groups of
  hexadecimal digits of lengths 8, 4, 4, 4 and 12, separated by hyphens; the first digit
  of the third group (the version nibble) is one of 1 to 5, the first digit of the
  fourth group (the variant nibble) is one of 8, 9, a, b; letters in either case.
\<close>

definition hex_digit :: "char \<Rightarrow> bool" where
  "hex_digit c = (c \<in> set ''0123456789abcdefABCDEF'')"

definition hyphen :: "char \<Rightarrow> bool" where
  "hyphen c = (c = CHR ''-'')"

definition version_nibble :: "char \<Rightarrow> bool" where
  "version_nibble c = (c \<in> set ''12345'')"

definition variant_nibble :: "char \<Rightarrow> bool" where
  "variant_nibble c = (c \<in> set ''89abAB'')"

definition uuid_shape :: "(char \<Rightarrow> bool) list" where
  "uuid_shape =
     replicate 8 hex_digit @ [hyphen] @
     replicate 4 hex_digit @ [hyphen] @
     version_nibble # replicate 3 hex_digit @ [hyphen] @
     variant_nibble # replicate 3 hex_digit @ [hyphen] @
     replicate 12 hex_digit"

definition canonical_uuid :: "string \<Rightarrow> bool" where
  "canonical_uuid s = list_all2 (\<lambda>allowed c. allowed c) uuid_shape s"

text \<open>
  A pattern node of fixed width consumes a fixed number of characters, each tested on its
  own; the shape of a sequence of such nodes lists the tests, one per character.
\<close>

fun node_shape :: "bool \<Rightarrow> node \<Rightarrow> (char \<Rightarrow> bool) list" where
  "node_shape ic (One a) = [atom_match ic a]"
| "node_shape ic (MAX_REPEAT lo hi a) = replicate lo (atom_match ic a)"
| "node_shape ic n = []"

fun fixed_width :: "node \<Rightarrow> bool" where
  "fixed_width (One a) = True"
| "fixed_width (MAX_REPEAT lo hi a) = (hi = Some lo)"
| "fixed_width n = False"

definition pattern_shape :: "bool \<Rightarrow> node list \<Rightarrow> (char \<Rightarrow> bool) list" where
  "pattern_shape ic p = concat (map (node_shape ic) p)"

text \<open>A single-line text contains no newline character.\<close>

definition single_line :: "string \<Rightarrow> bool" where
  "single_line s = (CHR 0x0A \<notin> set s)"

text \<open>Kinds of driver calls, to speak about the history.\<close>

fun is_create :: "call \<Rightarrow> bool" where
  "is_create (CreateEngine url) = True"
| "is_create c = False"


fun is_commit :: "call \<Rightarrow> bool" where
  "is_commit (Commit conn) = True"
| "is_commit c = False"


subsection \<open>Example environments\<close>

text \<open>
  A database that refuses the very first call and is reachable afterwards; it cannot
  reach engine 9, rejects the statement \<open>SELEC 1\<close>, answers every other statement with
  the number of parameters bound, and loses connection 3 when it is closed.
\<close>

definition example_driver :: "nat driver" where
  "example_driver =
     \<lparr>create_engine = (\<lambda>history url.
         if history = [] then Inl (Exn (OtherError ''OperationalError'') ''connection refused'')
         else Inr 1),
      connect = (\<lambda>history eng.
         if eng = 9 then Inl (Exn (OtherError ''OperationalError'') ''no route to host'')
         else Inr (length history)),
      execute = (\<lambda>history conn stmt params.
         if stmt = ''SELEC 1'' then Inl (Exn (OtherError ''ProgrammingError'') ''malformed statement'')
         else Inr (case params of None \<Rightarrow> 0 | Some d \<Rightarrow> length d)),
      commit = (\<lambda>history conn. Inr ()),
      close = (\<lambda>history conn.
         if conn = 3 then Inl (Exn (OtherError ''OperationalError'') ''connection reset'')
         else Inr ())\<rparr>"

text \<open>A driver whose \<open>connect\<close> is interrupted from the keyboard.\<close>

definition interrupted_driver :: "nat driver" where
  "interrupted_driver =
     \<lparr>create_engine = (\<lambda>history url. Inr 1),
      connect = (\<lambda>history eng. Inl (Exn KeyboardInterrupt [])),
      execute = (\<lambda>history conn stmt params. Inr 0),
      commit = (\<lambda>history conn. Inr ()),
      close = (\<lambda>history conn. Inr ())\<rparr>"

text \<open>A driver that numbers the engines it creates by the length of the history.\<close>

definition counting_driver :: "nat driver" where
  "counting_driver =
     \<lparr>create_engine = (\<lambda>history url. Inr (length history)),
      connect = (\<lambda>history eng. Inr 0),
      execute = (\<lambda>history conn stmt params. Inr 0),
      commit = (\<lambda>history conn. Inr ()),
      close = (\<lambda>history conn. Inr ())\<rparr>"

text \<open>A logger that accepts every record, and one whose renderer fails on every record.\<close>

definition accepting_sink :: sink where
  "accepting_sink log r = None"

definition failing_sink :: sink where
  "failing_sink log r = Some (Exn ValueError ''log rendering failed'')"



definition fresh_client :: DatabaseClient where
  "fresh_client = \<lparr>connection_string = ''postgresql://app@db/auction'', engine_slot = None\<rparr>"

definition warm_client :: DatabaseClient where
  "warm_client = \<lparr>connection_string = ''postgresql://app@db/auction'', engine_slot = Some 1\<rparr>"

definition stale_client :: DatabaseClient where
  "stale_client = \<lparr>connection_string = ''postgresql://app@db/auction'', engine_slot = Some 9\<rparr>"

definition empty_world :: world where
  "empty_world = \<lparr>trace = [], logs = []\<rparr>"

definition busy_world :: world where
  "busy_world = \<lparr>trace = [Connect 1, Execute 0 ''SELECT 1'' None, Close 0], logs = []\<rparr>"

definition example_uses :: "use list" where
  "example_uses =
     [Use_health_check, Use_execute_query ''SELECT 2'' None, Use_engine, Use_health_check]"

text \<open>Two first accesses that take their steps in turn.\<close>

definition overlapping_schedule :: "bool list" where
  "overlapping_schedule = [True, False, True, False, True, False, True, False]"

section \<open>Evaluating the patterns\<close>

text \<open>
  The members of each character set, computed once, so that a match on a concrete
  subject is decided by comparing characters.
\<close>

lemma hex_set_lower: "map py_lower (expand hex_set) = ''0123456789abcdef''"
  by code_simp

lemma version_set_lower: "map py_lower (expand version_set) = ''12345''"
  by code_simp

lemma variant_set_lower: "map py_lower (expand variant_set) = ''89ab''"
  by code_simp

lemma local_set_expand:
  "expand local_set = ''abcdefghijklmnopqrstuvwxyzABCDEFGHIJKLMNOPQRSTUVWXYZ0123456789._%+-''"
  by code_simp

lemma domain_set_expand:
  "expand domain_set = ''abcdefghijklmnopqrstuvwxyzABCDEFGHIJKLMNOPQRSTUVWXYZ0123456789.-''"
  by code_simp

lemma alpha_set_expand:
  "expand alpha_set = ''abcdefghijklmnopqrstuvwxyzABCDEFGHIJKLMNOPQRSTUVWXYZ''"
  by code_simp

lemma py_lower_id:
  "of_char c < (65::nat) \<or> (90 < (of_char c::nat) \<and> of_char c < (192::nat)) \<Longrightarrow> py_lower c = c"
  by (auto simp: py_lower_def Let_def)

lemma py_lower_A_to_F:
  "py_lower CHR ''A'' = CHR ''a''" "py_lower CHR ''B'' = CHR ''b''"
  "py_lower CHR ''C'' = CHR ''c''" "py_lower CHR ''D'' = CHR ''d''"
  "py_lower CHR ''E'' = CHR ''e''" "py_lower CHR ''F'' = CHR ''f''"
  by code_simp+

lemmas match_eval =
  is_valid_uuid_def is_valid_email_def UUID_PATTERN_def EMAIL_PATTERN_def
  hex_set_lower version_set_lower variant_set_lower
  local_set_expand domain_set_expand alpha_set_expand py_lower_id py_lower_A_to_F

lemma canonical_uuid_length: "canonical_uuid s \<Longrightarrow> length s = 36"
  by (auto simp: canonical_uuid_def uuid_shape_def dest: list_all2_lengthD)

lemmas shape_eval =
  canonical_uuid_def uuid_shape_def hex_digit_def hyphen_def version_nibble_def
  variant_nibble_def eval_nat_numeral

text \<open>The examples the specification lists for the two predicates.\<close>

lemma uuid_examples:
  "is_valid_uuid (PyStr ''550e8400-e29b-41d4-a716-446655440000'') = Inr True"
  "is_valid_uuid (PyStr ''not-a-uuid'') = Inr False"
  "is_valid_uuid (PyStr ''550e8400-e29b-61d4-a716-446655440000'') = Inr False"
  by (simp_all add: match_eval del: expand.simps)

lemma email_examples:
  "is_valid_email (PyStr ''a@b.co'') = Inr True"
  "is_valid_email (PyStr ''a@b'') = Inr False"
  "is_valid_email (PyStr ''a b@c.com'') = Inr False"
  by (simp_all add: match_eval del: expand.simps)

section \<open>What the UUID pattern accepts\<close>

text \<open>
  A sequence of fixed-width nodes matches a prefix of the subject exactly when the
  subject is long enough and its first characters pass the tests of the shape. For the
  UUID pattern this gives the complete answer of \<open>is_valid_uuid\<close> on strings: the
  canonical texts, and the canonical texts followed by one newline.
\<close>

lemma sre_match_exact_repeat:
  "sre_match ic (MAX_REPEAT n (Some n) a # p) st s =
     (n \<le> length s \<and> list_all (atom_match ic a) (take n s) \<and>
      sre_match ic p (st \<and> n = 0) (drop n s))"
proof (induction n arbitrary: s st)
  case 0
  then show ?case by (cases s) simp_all
next
  case (Suc n)
  then show ?case by (cases s) simp_all
qed

lemma list_all2_replicate_left:
  "list_all2 (\<lambda>f c. f c) (replicate n f) u = (length u = n \<and> list_all f u)"
proof (induction n arbitrary: u)
  case 0
  then show ?case by auto
next
  case (Suc n)
  then show ?case by (cases u) auto
qed


lemma sre_match_fixed_prefix:
  "list_all fixed_width p \<Longrightarrow>
     sre_match ic (p @ q) st s =
       (length (pattern_shape ic p) \<le> length s \<and>
        list_all2 (\<lambda>f c. f c) (pattern_shape ic p) (take (length (pattern_shape ic p)) s) \<and>
        sre_match ic q (st \<and> pattern_shape ic p = []) (drop (length (pattern_shape ic p)) s))"
proof (induction p arbitrary: s st)
  case Nil
  then show ?case by (simp add: pattern_shape_def)
next
  case (Cons n p)
  from Cons.prems have fp: "list_all fixed_width p" and fn: "fixed_width n" by simp_all
  note IH = Cons.IH [OF fp]
  let ?k = "length (pattern_shape ic p)"
  show ?case
  proof (cases n)
    case (One a)
    have sh: "pattern_shape ic (n # p) = atom_match ic a # pattern_shape ic p"
      using One by (simp add: pattern_shape_def)
    show ?thesis
    proof (cases s)
      case Nil
      then show ?thesis using One sh by simp
    next
      case (Cons c cs)
      then show ?thesis using One sh by (simp add: IH)
    qed
  next
    case (MAX_REPEAT lo hi a)
    with fn have hi: "hi = Some lo" by simp
    have sh: "pattern_shape ic (n # p) = replicate lo (atom_match ic a) @ pattern_shape ic p"
      using MAX_REPEAT by (simp add: pattern_shape_def)
    have step: "sre_match ic ((n # p) @ q) st s =
        (lo \<le> length s \<and> list_all (atom_match ic a) (take lo s) \<and>
         sre_match ic (p @ q) (st \<and> lo = 0) (drop lo s))"
      using MAX_REPEAT hi by (simp add: sre_match_exact_repeat)
    show ?thesis
    proof (cases "lo \<le> length s")
      case False
      then show ?thesis using step sh by simp
    next
      case True
      have tk: "take (lo + ?k) s = take lo s @ take ?k (drop lo s)"
        by (simp add: take_add)
      have len: "length (replicate lo (atom_match ic a)) = length (take lo s)"
        using True by simp
      have split: "list_all2 (\<lambda>f c. f c) (replicate lo (atom_match ic a) @ pattern_shape ic p)
                     (take lo s @ take ?k (drop lo s)) =
          (list_all2 (\<lambda>f c. f c) (replicate lo (atom_match ic a)) (take lo s) \<and>
           list_all2 (\<lambda>f c. f c) (pattern_shape ic p) (take ?k (drop lo s)))"
        by (rule list_all2_append [OF len])
      have rep: "list_all2 (\<lambda>f c. f c) (replicate lo (atom_match ic a)) (take lo s)
                   = list_all (atom_match ic a) (take lo s)"
        using True by (simp add: list_all2_replicate_left)
      have flag: "(st \<and> pattern_shape ic (n # p) = []) = ((st \<and> lo = 0) \<and> pattern_shape ic p = [])"
        using sh by auto
      have le: "(lo + ?k \<le> length s) = (?k \<le> length (drop lo s))"
        using True by auto
      have dr: "drop (lo + ?k) s = drop ?k (drop lo s)"
        by (simp add: add.commute)
      show ?thesis
        unfolding step IH sh flag
        using True by (simp add: tk split rep le dr del: drop_drop) blast
    qed
  next
    case AT_BEGINNING
    with fn show ?thesis by simp
  next
    case AT_END
    with fn show ?thesis by simp
  qed
qed

lemma char_eq_code: "(c = d) = ((of_char c :: nat) = of_char d)"
  by simp

lemma py_lower_eq_iff:
  "py_lower c = t \<longleftrightarrow>
     (let n = (of_char c :: nat)
      in if (65 \<le> n \<and> n \<le> 90) \<or> (192 \<le> n \<and> n \<le> 222 \<and> n \<noteq> 215)
         then n + 32 = of_char t else n = of_char t)"
proof -
  have "of_char c < (256::nat)" by simp
  then show ?thesis
    unfolding py_lower_def Let_def
    by (auto simp: char_of_eq_iff take_bit_eq_mod)
qed

lemma hex_set_match: "atom_match True (IN hex_set) c = hex_digit c"
  apply (simp add: hex_set_lower hex_digit_def py_lower_eq_iff Let_def del: expand.simps)
  apply (simp only: char_eq_code [of c])
  apply simp
  apply arith
  done

lemma version_set_match: "atom_match True (IN version_set) c = version_nibble c"
  apply (simp add: version_set_lower version_nibble_def py_lower_eq_iff Let_def del: expand.simps)
  apply (simp only: char_eq_code [of c])
  apply simp
  done

lemma variant_set_match: "atom_match True (IN variant_set) c = variant_nibble c"
  apply (simp add: variant_set_lower variant_nibble_def py_lower_eq_iff Let_def del: expand.simps)
  apply (simp only: char_eq_code [of c])
  apply simp
  apply arith?
  done

lemma py_lower_hyphen: "py_lower CHR ''-'' = CHR ''-''"
  by code_simp

lemma hyphen_match: "atom_match True (LITERAL CHR ''-'') c = hyphen c"
  apply (simp add: hyphen_def py_lower_hyphen py_lower_eq_iff Let_def)
  apply (simp only: char_eq_code [of c])
  apply simp
  done

lemma uuid_pattern_shape:
  "pattern_shape True
     [MAX_REPEAT 8 (Some 8) (IN hex_set), One (LITERAL CHR ''-''),
      MAX_REPEAT 4 (Some 4) (IN hex_set), One (LITERAL CHR ''-''),
      One (IN version_set), MAX_REPEAT 3 (Some 3) (IN hex_set), One (LITERAL CHR ''-''),
      One (IN variant_set), MAX_REPEAT 3 (Some 3) (IN hex_set), One (LITERAL CHR ''-''),
      MAX_REPEAT 12 (Some 12) (IN hex_set)] = uuid_shape"
proof -
  have h: "atom_match True (IN hex_set) = hex_digit" by (rule ext) (rule hex_set_match)
  have v: "atom_match True (IN version_set) = version_nibble" by (rule ext) (rule version_set_match)
  have r: "atom_match True (IN variant_set) = variant_nibble" by (rule ext) (rule variant_set_match)
  have y: "atom_match True (LITERAL CHR ''-'') = hyphen" by (rule ext) (rule hyphen_match)
  show ?thesis
    by (simp only: pattern_shape_def list.map node_shape.simps h v r y uuid_shape_def concat.simps append.simps append_Nil2)
qed

lemma length_uuid_shape: "length uuid_shape = 36"
  by (simp add: uuid_shape_def)

lemma sre_match_uuid:
  "sre_match True UUID_PATTERN True s =
     (36 \<le> length s \<and> list_all2 (\<lambda>f c. f c) uuid_shape (take 36 s) \<and>
      (drop 36 s = [] \<or> drop 36 s = [CHR 0x0A]))"
proof -
  let ?body = "[MAX_REPEAT 8 (Some 8) (IN hex_set), One (LITERAL CHR ''-''),
      MAX_REPEAT 4 (Some 4) (IN hex_set), One (LITERAL CHR ''-''),
      One (IN version_set), MAX_REPEAT 3 (Some 3) (IN hex_set), One (LITERAL CHR ''-''),
      One (IN variant_set), MAX_REPEAT 3 (Some 3) (IN hex_set), One (LITERAL CHR ''-''),
      MAX_REPEAT 12 (Some 12) (IN hex_set)]"
  have fw: "list_all fixed_width ?body" by simp
  have pat: "UUID_PATTERN = AT_BEGINNING # (?body @ [AT_END])" by (simp add: UUID_PATTERN_def)
  have "sre_match True UUID_PATTERN True s = sre_match True (?body @ [AT_END]) True s"
    unfolding pat by (simp only: sre_match.simps if_True)
  also have "\<dots> = (length uuid_shape \<le> length s \<and>
        list_all2 (\<lambda>f c. f c) uuid_shape (take (length uuid_shape) s) \<and>
        sre_match True [AT_END] (True \<and> uuid_shape = []) (drop (length uuid_shape) s))"
    using sre_match_fixed_prefix [OF fw, of True "[AT_END]" True s]
    by (simp only: uuid_pattern_shape)
  also have "\<dots> = (36 \<le> length s \<and> list_all2 (\<lambda>f c. f c) uuid_shape (take 36 s) \<and>
      (drop 36 s = [] \<or> drop 36 s = [CHR 0x0A]))"
    by (simp add: length_uuid_shape)
  finally show ?thesis .
qed

lemma is_valid_uuid_characterisation:
  "is_valid_uuid (PyStr s) =
     Inr (canonical_uuid s \<or> (\<exists>t. s = t @ [CHR 0x0A] \<and> canonical_uuid t))"
proof -
  have len: "canonical_uuid t \<Longrightarrow> length t = 36" for t
    using length_uuid_shape by (auto simp: canonical_uuid_def dest: list_all2_lengthD)
  have "(36 \<le> length s \<and> list_all2 (\<lambda>f c. f c) uuid_shape (take 36 s) \<and>
      (drop 36 s = [] \<or> drop 36 s = [CHR 0x0A])) =
     (canonical_uuid s \<or> (\<exists>t. s = t @ [CHR 0x0A] \<and> canonical_uuid t))" (is "?L = ?R")
  proof
    assume l: ?L
    then have c: "canonical_uuid (take 36 s)" by (simp add: canonical_uuid_def)
    from l have "drop 36 s = [] \<or> drop 36 s = [CHR 0x0A]" by simp
    then show ?R
    proof
      assume "drop 36 s = []"
      then have "take 36 s = s" by simp
      with c show ?R by simp
    next
      assume d: "drop 36 s = [CHR 0x0A]"
      have "s = take 36 s @ drop 36 s" by simp
      with d have "s = take 36 s @ [CHR 0x0A]" by simp
      with c show ?R by blast
    qed
  next
    assume ?R
    then show ?L
    proof
      assume c: "canonical_uuid s"
      from len [OF c] c show ?L by (simp add: canonical_uuid_def)
    next
      assume "\<exists>t. s = t @ [CHR 0x0A] \<and> canonical_uuid t"
      then obtain t where s: "s = t @ [CHR 0x0A]" and c: "canonical_uuid t" by blast
      from len [OF c] s c show ?L by (simp add: canonical_uuid_def)
    qed
  qed
  then show ?thesis by (simp add: is_valid_uuid_def sre_match_uuid)
qed

section \<open>Properties of validation.py\<close>

text \<open>
  On a string, \<open>is_valid_date_string\<close> replaces every \<open>Z\<close> by \<open>+00:00\<close>, hands the text
  to the parser and turns the parser's answer into a truth value: true when it parses,
  false when the parser raises a \<open>ValueError\<close> or a \<open>TypeError\<close>.
\<close>

lemma is_valid_date_string_str:
  "is_valid_date_string fromisoformat (PyStr s) =
     (case fromisoformat (str_replace ''Z'' ''+00:00'' s) of
        Inr d \<Rightarrow> Inr True
      | Inl e \<Rightarrow> if caught_by [ValueError, TypeError] e then Inr False else Inl e)"
  by (simp add: is_valid_date_string_def)

lemma str_replace_example:
  "str_replace ''Z'' ''+00:00'' ''2024-01-01T00:00:00Z'' = ''2024-01-01T00:00:00+00:00''"
  by simp

lemma is_valid_date_string_bytes:
  "is_valid_date_string fromisoformat (PyBytes b) = Inr False"
  by (simp add: is_valid_date_string_def caught_by_def)

text \<open>
  C1. The claim: \<open>is_valid_date_string\<close> returns false, and never raises, on every input
  that is not a string, such as \<open>None\<close> or an integer. On \<open>None\<close> and on an integer the
  code raises instead: the method call \<open>date_string.replace\<close> fails with an
  \<open>AttributeError\<close> before the parser is reached, and the handler catches only
  \<open>ValueError\<close> and \<open>TypeError\<close>. This holds whatever the parser is.
\<close>

theorem is_valid_date_string_non_string_raises:
  "is_valid_date_string fromisoformat PyNone
     = Inl (Exn AttributeError ''object has no attribute replace'') \<and>
   is_valid_date_string fromisoformat (PyInt 20240101)
     = Inl (Exn AttributeError ''object has no attribute replace'')"
  by (simp add: is_valid_date_string_def caught_by_def)




text \<open>
  C6. The claim: \<open>is_valid_uuid\<close> is true exactly on the canonical UUID texts. The
  examples of the claim hold (\<open>uuid_examples\<close>), and every canonical text is accepted
  (\<open>is_valid_uuid_characterisation\<close>), but a canonical UUID followed by one newline is
  not a canonical UUID text and the code answers true on it.
\<close>

theorem is_valid_uuid_accepts_non_canonical:
  "is_valid_uuid (PyStr (''550e8400-e29b-41d4-a716-446655440000'' @ [CHR 0x0A])) = Inr True \<and>
   \<not> canonical_uuid (''550e8400-e29b-41d4-a716-446655440000'' @ [CHR 0x0A])"
proof
  show "is_valid_uuid (PyStr (''550e8400-e29b-41d4-a716-446655440000'' @ [CHR 0x0A])) = Inr True"
    by (simp add: match_eval del: expand.simps)
  show "\<not> canonical_uuid (''550e8400-e29b-41d4-a716-446655440000'' @ [CHR 0x0A])"
  proof
    assume "canonical_uuid (''550e8400-e29b-41d4-a716-446655440000'' @ [CHR 0x0A])"
    then have "length (''550e8400-e29b-41d4-a716-446655440000'' @ [CHR 0x0A]) = 36"
      by (rule canonical_uuid_length)
    then show False by simp
  qed
qed

text \<open>
  C9. There is a text that is not a canonical UUID, and a text that is not a single
  line, on which \<open>is_valid_uuid\<close> and \<open>is_valid_email\<close> answer true: a valid value
  followed by one newline, which \<open>$\<close> lets pass.
\<close>

theorem dollar_accepts_trailing_newline:
  "canonical_uuid ''F47AC10B-58CC-4372-A567-0E02B2C3D479'' \<and>
   \<not> canonical_uuid (''F47AC10B-58CC-4372-A567-0E02B2C3D479'' @ [CHR 0x0A]) \<and>
   is_valid_uuid (PyStr (''F47AC10B-58CC-4372-A567-0E02B2C3D479'' @ [CHR 0x0A])) = Inr True \<and>
   single_line ''bidder@example.org'' \<and>
   is_valid_email (PyStr ''bidder@example.org'') = Inr True \<and>
   \<not> single_line (''bidder@example.org'' @ [CHR 0x0A]) \<and>
   is_valid_email (PyStr (''bidder@example.org'' @ [CHR 0x0A])) = Inr True"
proof -
  have a: "\<not> canonical_uuid (''F47AC10B-58CC-4372-A567-0E02B2C3D479'' @ [CHR 0x0A])"
  proof
    assume "canonical_uuid (''F47AC10B-58CC-4372-A567-0E02B2C3D479'' @ [CHR 0x0A])"
    then have "length (''F47AC10B-58CC-4372-A567-0E02B2C3D479'' @ [CHR 0x0A]) = 36"
      by (rule canonical_uuid_length)
    then show False by simp
  qed
  have b: "canonical_uuid ''F47AC10B-58CC-4372-A567-0E02B2C3D479''"
    by (simp add: shape_eval)
  have c: "is_valid_uuid (PyStr (''F47AC10B-58CC-4372-A567-0E02B2C3D479'' @ [CHR 0x0A])) = Inr True"
    by (simp add: match_eval del: expand.simps)
  have d: "\<not> single_line (''bidder@example.org'' @ [CHR 0x0A])" "single_line ''bidder@example.org''"
    by (simp_all add: single_line_def)
  have e: "is_valid_email (PyStr ''bidder@example.org'') = Inr True"
    "is_valid_email (PyStr (''bidder@example.org'' @ [CHR 0x0A])) = Inr True"
    by (simp_all add: match_eval del: expand.simps)
  from a b c d e show ?thesis by blast
qed

text \<open>
  C10. On every input that is not a string, \<open>is_valid_uuid\<close> and \<open>is_valid_email\<close>
  raise a \<open>TypeError\<close>; they do not return false.
\<close>

theorem non_string_raises_type_error:
  "(\<forall>s. v \<noteq> PyStr s) \<Longrightarrow>
     (\<exists>m. is_valid_uuid v = Inl (Exn TypeError m)) \<and>
     (\<exists>m. is_valid_email v = Inl (Exn TypeError m))"
  by (cases v) (simp_all add: is_valid_uuid_def is_valid_email_def)

theorem non_string_raises_type_error_witness:
  "(\<exists>m. is_valid_uuid PyNone = Inl (Exn TypeError m)) \<and>
   (\<exists>m. is_valid_email PyNone = Inl (Exn TypeError m)) \<and>
   (\<exists>m. is_valid_uuid (PyInt 42) = Inl (Exn TypeError m)) \<and>
   (\<exists>m. is_valid_email (PyInt 42) = Inl (Exn TypeError m))"
proof -
  have n: "\<forall>s. PyNone \<noteq> PyStr s" by simp
  have i: "\<forall>s. PyInt 42 \<noteq> PyStr s" by simp
  from non_string_raises_type_error [OF n] non_string_raises_type_error [OF i]
  show ?thesis by blast
qed

section \<open>Properties of db.py\<close>

lemmas drv_defs =
  engine_def with_connect_def execute_query_body_def
  do_create_engine_def do_connect_def do_execute_def do_commit_def do_close_def













lemmas all_defs =
  drv_defs execute_query_def health_check_def logger_error_def emit_def caught_by_def

lemma engines_created_append:
  "engines_created drv pre (a @ b)
     = engines_created drv pre a + engines_created drv (pre @ a) b"
  by (induction drv pre a rule: engines_created.induct) simp_all

lemma engines_created_none:
  "\<not> list_ex is_create a \<Longrightarrow> engines_created drv pre a = 0"
  by (induction drv pre a rule: engines_created.induct) simp_all

lemma health_check_after:
  "fst (snd (health_check drv lg self w))
     = fst (snd (with_connect drv self w (\<lambda>conn. do_execute drv conn ''SELECT 1'' None)))"
  "trace (snd (snd (health_check drv lg self w)))
     = trace (snd (snd (with_connect drv self w (\<lambda>conn. do_execute drv conn ''SELECT 1'' None))))"
  by (simp_all add: health_check_def logger_error_def emit_def
        split: prod.splits sum.splits option.splits)

lemma execute_query_after:
  "fst (snd (execute_query drv lg self q p w))
     = fst (snd (with_connect drv self w (execute_query_body drv q p)))"
  "trace (snd (snd (execute_query drv lg self q p w)))
     = trace (snd (snd (with_connect drv self w (execute_query_body drv q p))))"
  by (simp_all add: execute_query_def logger_error_def emit_def
        split: prod.splits sum.splits option.splits)

lemma with_connect_cached:
  assumes "engine_slot self = Some h"
    and "body = (\<lambda>conn. do_execute drv conn ''SELECT 1'' None) \<or> body = execute_query_body drv q p"
  shows "fst (snd (with_connect drv self w body)) = self \<and>
         (\<exists>ad. trace (snd (snd (with_connect drv self w body))) = trace w @ ad
            \<and> \<not> list_ex is_create ad \<and> (\<forall>x. Connect x \<in> set ad \<longrightarrow> x = h))"
  using assms by (auto simp: drv_defs split: sum.splits prod.splits)

lemma with_connect_fresh:
  assumes "engine_slot self = None"
    and "body = (\<lambda>conn. do_execute drv conn ''SELECT 1'' None) \<or> body = execute_query_body drv q p"
  shows "\<exists>ad. trace (snd (snd (with_connect drv self w body))) = trace w @ ad \<and>
            ((engine_slot (fst (snd (with_connect drv self w body))) = None
                \<and> engines_created drv (trace w) ad = 0
                \<and> (\<forall>x. Connect x \<notin> set ad)) \<or>
             (\<exists>h. engine_slot (fst (snd (with_connect drv self w body))) = Some h
                  \<and> engines_created drv (trace w) ad = 1
                  \<and> (\<forall>x. Connect x \<in> set ad \<longrightarrow> x = h)))"
  using assms by (auto simp: drv_defs split: sum.splits prod.splits)

lemma use_cached:
  assumes "engine_slot self = Some h" "use_client drv lg u (self, w) = (self', w')"
  shows "self' = self \<and>
         (\<exists>ad. trace w' = trace w @ ad \<and> \<not> list_ex is_create ad
            \<and> (\<forall>x. Connect x \<in> set ad \<longrightarrow> x = h))"
proof (cases u)
  case Use_engine
  with assms show ?thesis by (auto simp: engine_def)
next
  case (Use_execute_query q p)
  with assms(2) have "self' = fst (snd (execute_query drv lg self q p w))"
    and "trace w' = trace (snd (snd (execute_query drv lg self q p w)))"
    by (simp_all add: snd_def split: prod.splits)
  then show ?thesis
    using with_connect_cached [OF assms(1), of "execute_query_body drv q p" drv q p w]
    by (simp add: execute_query_after)
next
  case Use_health_check
  with assms(2) have "self' = fst (snd (health_check drv lg self w))"
    and "trace w' = trace (snd (snd (health_check drv lg self w)))"
    by (simp_all add: snd_def split: prod.splits)
  then show ?thesis
    using with_connect_cached [OF assms(1), of "\<lambda>conn. do_execute drv conn ''SELECT 1'' None" drv "[]" None w]
    by (simp add: health_check_after)
qed

lemma use_fresh:
  assumes "engine_slot self = None" "use_client drv lg u (self, w) = (self', w')"
  shows "\<exists>ad. trace w' = trace w @ ad \<and>
            ((engine_slot self' = None \<and> engines_created drv (trace w) ad = 0
                \<and> (\<forall>x. Connect x \<notin> set ad)) \<or>
             (\<exists>h. engine_slot self' = Some h \<and> engines_created drv (trace w) ad = 1
                  \<and> (\<forall>x. Connect x \<in> set ad \<longrightarrow> x = h)))"
proof (cases u)
  case Use_engine
  with assms show ?thesis
    by (auto simp: engine_def do_create_engine_def split: sum.splits)
next
  case (Use_execute_query q p)
  with assms(2) have "self' = fst (snd (execute_query drv lg self q p w))"
    and "trace w' = trace (snd (snd (execute_query drv lg self q p w)))"
    by (simp_all add: snd_def split: prod.splits)
  then show ?thesis
    using with_connect_fresh [OF assms(1), of "execute_query_body drv q p" drv q p w]
    by (simp add: execute_query_after)
next
  case Use_health_check
  with assms(2) have "self' = fst (snd (health_check drv lg self w))"
    and "trace w' = trace (snd (snd (health_check drv lg self w)))"
    by (simp_all add: snd_def split: prod.splits)
  then show ?thesis
    using with_connect_fresh [OF assms(1), of "\<lambda>conn. do_execute drv conn ''SELECT 1'' None" drv "[]" None w]
    by (simp add: health_check_after)
qed

lemma run_cached:
  "engine_slot self = Some h \<Longrightarrow> run drv lg us (self, w) = (self', w') \<Longrightarrow>
     self' = self \<and>
     (\<exists>ad. trace w' = trace w @ ad \<and> \<not> list_ex is_create ad
        \<and> (\<forall>x. Connect x \<in> set ad \<longrightarrow> x = h))"
proof (induction us arbitrary: w)
  case Nil
  then show ?case by simp
next
  case (Cons u us)
  obtain s1 w1 where step: "use_client drv lg u (self, w) = (s1, w1)"
    by (cases "use_client drv lg u (self, w)")
  from use_cached [OF Cons.prems(1) step] obtain a1 where
    s1: "s1 = self" and a1: "trace w1 = trace w @ a1" "\<not> list_ex is_create a1"
      "\<forall>x. Connect x \<in> set a1 \<longrightarrow> x = h" by blast
  from Cons.prems(2) step s1 have rest: "run drv lg us (self, w1) = (self', w')" by simp
  from Cons.IH [OF Cons.prems(1) rest] obtain a2 where
    s2: "self' = self" and a2: "trace w' = trace w1 @ a2" "\<not> list_ex is_create a2"
      "\<forall>x. Connect x \<in> set a2 \<longrightarrow> x = h" by blast
  have "trace w' = trace w @ (a1 @ a2)" using a1(1) a2(1) by simp
  moreover have "\<not> list_ex is_create (a1 @ a2)" using a1(2) a2(2) by simp
  moreover have "\<forall>x. Connect x \<in> set (a1 @ a2) \<longrightarrow> x = h" using a1(3) a2(3) by auto
  ultimately show ?case using s2 by blast
qed

lemma run_fresh:
  "engine_slot self = None \<Longrightarrow> run drv lg us (self, w) = (self', w') \<Longrightarrow>
     \<exists>ad. trace w' = trace w @ ad \<and>
        ((engine_slot self' = None \<and> engines_created drv (trace w) ad = 0
            \<and> (\<forall>x. Connect x \<notin> set ad)) \<or>
         (\<exists>h. engine_slot self' = Some h \<and> engines_created drv (trace w) ad = 1
              \<and> (\<forall>x. Connect x \<in> set ad \<longrightarrow> x = h)))"
proof (induction us arbitrary: self w)
  case Nil
  then show ?case by simp
next
  case (Cons u us)
  obtain s1 w1 where step: "use_client drv lg u (self, w) = (s1, w1)"
    by (cases "use_client drv lg u (self, w)")
  from Cons.prems(2) step have rest: "run drv lg us (s1, w1) = (self', w')" by simp
  from use_fresh [OF Cons.prems(1) step] obtain a1 where a1: "trace w1 = trace w @ a1"
    and alt: "(engine_slot s1 = None \<and> engines_created drv (trace w) a1 = 0
                \<and> (\<forall>x. Connect x \<notin> set a1)) \<or>
             (\<exists>h. engine_slot s1 = Some h \<and> engines_created drv (trace w) a1 = 1
                  \<and> (\<forall>x. Connect x \<in> set a1 \<longrightarrow> x = h))" by blast
  from alt show ?case
  proof
    assume none: "engine_slot s1 = None \<and> engines_created drv (trace w) a1 = 0
                \<and> (\<forall>x. Connect x \<notin> set a1)"
    then have s1: "engine_slot s1 = None" by simp
    from Cons.IH [OF s1 rest] obtain a2 where a2: "trace w' = trace w1 @ a2"
      and alt2: "(engine_slot self' = None \<and> engines_created drv (trace w1) a2 = 0
            \<and> (\<forall>x. Connect x \<notin> set a2)) \<or>
         (\<exists>h. engine_slot self' = Some h \<and> engines_created drv (trace w1) a2 = 1
              \<and> (\<forall>x. Connect x \<in> set a2 \<longrightarrow> x = h))" by blast
    have t: "trace w' = trace w @ (a1 @ a2)" using a1 a2 by simp
    have c: "engines_created drv (trace w) (a1 @ a2) = engines_created drv (trace w1) a2"
      using none a1 by (simp add: engines_created_append)
    have "(engine_slot self' = None \<and> engines_created drv (trace w) (a1 @ a2) = 0
            \<and> (\<forall>x. Connect x \<notin> set (a1 @ a2))) \<or>
         (\<exists>h. engine_slot self' = Some h \<and> engines_created drv (trace w) (a1 @ a2) = 1
              \<and> (\<forall>x. Connect x \<in> set (a1 @ a2) \<longrightarrow> x = h))"
      using alt2 none unfolding c by auto
    with t show ?case by blast
  next
    assume "\<exists>h. engine_slot s1 = Some h \<and> engines_created drv (trace w) a1 = 1
                  \<and> (\<forall>x. Connect x \<in> set a1 \<longrightarrow> x = h)"
    then obtain h where h: "engine_slot s1 = Some h" "engines_created drv (trace w) a1 = 1"
       "\<forall>x. Connect x \<in> set a1 \<longrightarrow> x = h" by blast
    from run_cached [OF h(1) rest] obtain a2 where s2: "self' = s1" and
      a2: "trace w' = trace w1 @ a2" "\<not> list_ex is_create a2"
        "\<forall>x. Connect x \<in> set a2 \<longrightarrow> x = h"
      by blast
    have t: "trace w' = trace w @ (a1 @ a2)" using a1 a2 by simp
    have "engines_created drv (trace w) (a1 @ a2) = 1"
      using h(2) engines_created_none [OF a2(2)] by (simp add: engines_created_append)
    moreover have "\<forall>x. Connect x \<in> set (a1 @ a2) \<longrightarrow> x = h" using h(3) a2(3) by auto
    ultimately show ?case using t s2 h(1) by blast
  qed
qed

lemma engine_step_by_step:
  "(engine_step drv ^^ 4) (At_test, self, w) =
     (case engine drv self w of
        (Inl e, self', w') \<Rightarrow> (Raised e, self', w')
      | (Inr h, self', w') \<Rightarrow> (Returned (Some h), self', w'))"
  by (auto simp: eval_nat_numeral engine_def split: option.splits sum.splits prod.splits)

lemmas example_defs =
  example_driver_def interrupted_driver_def accepting_sink_def failing_sink_def
  fresh_client_def warm_client_def stale_client_def empty_world_def busy_world_def


lemma example_run:
  "run example_driver accepting_sink example_uses (fresh_client, empty_world)
     = (warm_client,
        \<lparr>trace = [CreateEngine ''postgresql://app@db/auction'',
                  CreateEngine ''postgresql://app@db/auction'',
                  Connect 1, Execute 2 ''SELECT 2'' (Some []), Commit 2, Close 2,
                  Connect 1, Execute 6 ''SELECT 1'' None, Close 6],
         logs = [\<lparr>level = ERROR, event = ''Database health check failed: connection refused'',
                  kwargs = []\<rparr>]\<rparr>)"
  by (simp add: example_uses_def all_defs example_defs)










text \<open>
  C4. Constructing a client with a non-empty connection string succeeds and keeps that
  string; with no argument and no \<open>DATABASE_URL\<close> in the environment it fails with the
  configuration error.
\<close>

theorem init_contract:
  "(s \<noteq> [] \<longrightarrow> init environ (Some s) = Inr \<lparr>connection_string = s, engine_slot = None\<rparr>) \<and>
   (environ ''DATABASE_URL'' = None \<longrightarrow>
      init environ None = Inl (Exn ValueError ''DATABASE_URL environment variable not set''))"
  by (simp add: init_def getenv_def)

theorem init_contract_witness:
  "init Map.empty (Some ''postgresql://app@db/auction'')
     = Inr \<lparr>connection_string = ''postgresql://app@db/auction'', engine_slot = None\<rparr> \<and>
   init Map.empty None = Inl (Exn ValueError ''DATABASE_URL environment variable not set'')"
proof -
  have h1: "''postgresql://app@db/auction'' \<noteq> []" by simp
  have h2: "(Map.empty :: string \<rightharpoonup> string) ''DATABASE_URL'' = None" by simp
  from init_contract [of "''postgresql://app@db/auction''" Map.empty] h1 h2
  show ?thesis by blast
qed

text \<open>
  C7, as stated: for every client the engine handle is created at most once, and no
  operation replaces a handle once it is set. The test, the creation and the store of the
  property \<open>engine\<close> are separate steps without a guard. When two first accesses take
  their steps in turn, both find the slot empty and both create an engine: two handles
  are created, the slot first holds handle 0 and is then overwritten with handle 1, and
  the access that created handle 0 returns handle 1.
\<close>

theorem overlapping_accesses_create_twice:
  "interleave counting_driver overlapping_schedule (At_test, At_test, fresh_client, empty_world)
     = (Returned (Some 1), Returned (Some 1),
        \<lparr>connection_string = ''postgresql://app@db/auction'', engine_slot = Some 1\<rparr>,
        \<lparr>trace = [CreateEngine ''postgresql://app@db/auction'',
                  CreateEngine ''postgresql://app@db/auction''],
         logs = []\<rparr>) \<and>
   engines_created counting_driver []
     [CreateEngine ''postgresql://app@db/auction'', CreateEngine ''postgresql://app@db/auction'']
     = 2 \<and>
   interleave counting_driver (take 5 overlapping_schedule)
     (At_test, At_test, fresh_client, empty_world)
     = (At_return, At_store 1,
        \<lparr>connection_string = ''postgresql://app@db/auction'', engine_slot = Some 0\<rparr>,
        \<lparr>trace = [CreateEngine ''postgresql://app@db/auction'',
                  CreateEngine ''postgresql://app@db/auction''],
         logs = []\<rparr>)"
  by (simp add: overlapping_schedule_def counting_driver_def fresh_client_def empty_world_def
        do_create_engine_def)

text \<open>
  C7, amended. When the uses of a client (reading \<open>engine\<close>, \<open>execute_query\<close>,
  \<open>health_check\<close>) run one after the other, each to its end before the next begins,
  at most one call of \<open>create_engine\<close> returns a handle over the whole sequence. Once
  the slot holds a handle no use changes the client and no engine is created; every
  connection opened is opened on the handle in the slot, and reading \<open>engine\<close> afterwards
  returns it without touching the world. (\<open>engine_step_by_step\<close>: an access that takes
  its four steps alone is the property \<open>engine\<close>.)
\<close>

theorem engine_created_at_most_once:
  assumes "run drv lg uses (self, w) = (self', w')"
  shows "\<exists>added. trace w' = trace w @ added \<and> engines_created drv (trace w) added \<le> 1 \<and>
     (\<forall>h. engine_slot self = Some h \<longrightarrow>
        self' = self \<and> engines_created drv (trace w) added = 0) \<and>
     (\<forall>h. engine_slot self' = Some h \<longrightarrow>
        (\<forall>x. Connect x \<in> set added \<longrightarrow> x = h) \<and> engine drv self' w' = (Inr h, self', w'))"
proof (cases "engine_slot self")
  case None
  from run_fresh [OF None assms] obtain ad where t: "trace w' = trace w @ ad"
    and alt: "(engine_slot self' = None \<and> engines_created drv (trace w) ad = 0
            \<and> (\<forall>x. Connect x \<notin> set ad)) \<or>
         (\<exists>h. engine_slot self' = Some h \<and> engines_created drv (trace w) ad = 1
              \<and> (\<forall>x. Connect x \<in> set ad \<longrightarrow> x = h))" by blast
  have "engines_created drv (trace w) ad \<le> 1" using alt by auto
  moreover have "\<forall>h. engine_slot self' = Some h \<longrightarrow>
        (\<forall>x. Connect x \<in> set ad \<longrightarrow> x = h) \<and> engine drv self' w' = (Inr h, self', w')"
    using alt by (auto simp: engine_def)
  ultimately show ?thesis using t None by auto
next
  case (Some h)
  from run_cached [OF Some assms] obtain ad where s: "self' = self" and t: "trace w' = trace w @ ad"
    and nc: "\<not> list_ex is_create ad" and cn: "\<forall>x. Connect x \<in> set ad \<longrightarrow> x = h" by blast
  have z: "engines_created drv (trace w) ad = 0" by (rule engines_created_none [OF nc])
  have "engine drv self' w' = (Inr h, self', w')" using s Some by (simp add: engine_def)
  then show ?thesis using s t z cn Some by auto
qed

theorem engine_created_at_most_once_witness:
  "engines_created example_driver []
     (trace (snd (run example_driver accepting_sink example_uses (fresh_client, empty_world)))) \<le> 1 \<and>
   fst (run example_driver accepting_sink example_uses (fresh_client, empty_world)) = warm_client \<and>
   engine example_driver warm_client
       (snd (run example_driver accepting_sink example_uses (fresh_client, empty_world)))
     = (Inr 1, warm_client,
        snd (run example_driver accepting_sink example_uses (fresh_client, empty_world))) \<and>
   run example_driver accepting_sink [Use_engine, Use_health_check] (warm_client, empty_world)
     = (warm_client, \<lparr>trace = [Connect 1, Execute 0 ''SELECT 1'' None, Close 0], logs = []\<rparr>)"
proof -
  let ?w = "snd (run example_driver accepting_sink example_uses (fresh_client, empty_world))"
  have r: "run example_driver accepting_sink example_uses (fresh_client, empty_world) = (warm_client, ?w)"
    by (simp add: example_run)
  have slot: "engine_slot warm_client = Some 1" by (simp add: warm_client_def)
  have t0: "trace empty_world = []" by (simp add: empty_world_def)
  from engine_created_at_most_once [OF r] t0 slot
  have 1: "engines_created example_driver [] (trace ?w) \<le> 1"
    and 2: "engine example_driver warm_client ?w = (Inr 1, warm_client, ?w)"
    by auto
  obtain s2 w2 where r2: "run example_driver accepting_sink [Use_engine, Use_health_check] (warm_client, empty_world) = (s2, w2)"
    by (cases "run example_driver accepting_sink [Use_engine, Use_health_check] (warm_client, empty_world)")
  from engine_created_at_most_once [OF r2] slot have s2: "s2 = warm_client" by blast
  have "w2 = \<lparr>trace = [Connect 1, Execute 0 ''SELECT 1'' None, Close 0], logs = []\<rparr>"
    using r2 by (simp add: all_defs example_defs)
  with r2 s2 have 3: "run example_driver accepting_sink [Use_engine, Use_health_check] (warm_client, empty_world)
     = (warm_client, \<lparr>trace = [Connect 1, Execute 0 ''SELECT 1'' None, Close 0], logs = []\<rparr>)"
    by simp
  have 4: "fst (run example_driver accepting_sink example_uses (fresh_client, empty_world)) = warm_client"
    by (simp add: example_run)
  from 1 2 3 4 show ?thesis by blast
qed


text \<open>
  C8. An empty string given as connection string is treated as no argument: the client
  takes \<open>DATABASE_URL\<close> instead, and construction fails exactly when that variable is
  unset or empty.
\<close>

theorem init_empty_string:
  "init environ (Some []) = init environ None \<and>
   (init environ (Some []) = Inl (Exn ValueError ''DATABASE_URL environment variable not set'')
      \<longleftrightarrow> environ ''DATABASE_URL'' = None \<or> environ ''DATABASE_URL'' = Some []) \<and>
   (\<forall>u. environ ''DATABASE_URL'' = Some u \<and> u \<noteq> [] \<longrightarrow>
      init environ (Some []) = Inr \<lparr>connection_string = u, engine_slot = None\<rparr>)"
  by (auto simp: init_def getenv_def split: option.splits)

theorem init_empty_string_witness:
  "init [''DATABASE_URL'' \<mapsto> ''postgresql://env@db/auction''] (Some [])
     = Inr \<lparr>connection_string = ''postgresql://env@db/auction'', engine_slot = None\<rparr> \<and>
   init [''DATABASE_URL'' \<mapsto> []] (Some [])
     = Inl (Exn ValueError ''DATABASE_URL environment variable not set'') \<and>
   init Map.empty (Some [])
     = Inl (Exn ValueError ''DATABASE_URL environment variable not set'')"
proof -
  have h1: "[''DATABASE_URL'' \<mapsto> ''postgresql://env@db/auction''] ''DATABASE_URL''
              = Some ''postgresql://env@db/auction'' \<and> ''postgresql://env@db/auction'' \<noteq> []"
    by simp
  have h2: "[''DATABASE_URL'' \<mapsto> ([] :: string)] ''DATABASE_URL'' = Some []" by simp
  have h3: "(Map.empty :: string \<rightharpoonup> string) ''DATABASE_URL'' = None" by simp
  from init_empty_string [of "[''DATABASE_URL'' \<mapsto> ''postgresql://env@db/auction'']"] h1
  have 1: "init [''DATABASE_URL'' \<mapsto> ''postgresql://env@db/auction''] (Some [])
     = Inr \<lparr>connection_string = ''postgresql://env@db/auction'', engine_slot = None\<rparr>"
    by blast
  from init_empty_string [of "[''DATABASE_URL'' \<mapsto> []]"] h2
  have 2: "init [''DATABASE_URL'' \<mapsto> []] (Some [])
     = Inl (Exn ValueError ''DATABASE_URL environment variable not set'')"
    by blast
  from init_empty_string [of Map.empty] h3
  have 3: "init Map.empty (Some [])
     = Inl (Exn ValueError ''DATABASE_URL environment variable not set'')"
    by blast
  from 1 2 3 show ?thesis by blast
qed

end
